theory Spec2Isabelle
  imports Main "HOL-Library.Word"
begin

section \<open>The C data model of drivers/staging/android/lowmemorykiller.c\<close>

text \<open>
  The driver is built for a 32-bit ARM kernel: \<open>int\<close>, \<open>unsigned long\<close>, \<open>size_t\<close> and
  \<open>uint32_t\<close> are all 32 bits wide. A value of each of these types is a \<open>32 word\<close>;
  \<open>+\<close> and \<open>-\<close> wrap around, \<open><\<close> and \<open>\<le>\<close> compare unsigned, \<open><s\<close> and \<open>\<le>s\<close>
  compare as two's complement. Converting between \<open>int\<close> and \<open>unsigned long\<close> keeps the
  bits, so the conversion is the identity on the word.
\<close>

type_synonym c_int = "32 word"
type_synonym c_ulong = "32 word"

text \<open>Reading a C array outside its declared bounds is a fault of the model.\<close>

datatype fault = OutOfBounds

text \<open>The tables are declared with six elements each (\<open>static int lowmem_adj[6]\<close>).\<close>

datatype 'a arr6 = Arr6 'a 'a 'a 'a 'a 'a

fun list6 :: "'a arr6 \<Rightarrow> 'a list" where
  "list6 (Arr6 a b c d e f) = [a, b, c, d, e, f]"

definition ARRAY_SIZE :: "'a arr6 \<Rightarrow> c_int" where
  "ARRAY_SIZE a = 6"

definition index6 :: "'a arr6 \<Rightarrow> nat \<Rightarrow> fault + 'a" where
  "index6 a i = (if i < length (list6 a) then Inr (list6 a ! i) else Inl OutOfBounds)"

text \<open>
  The module's globals, followed by what the build brings in from outside this file:
  the option \<open>CONFIG_SWAP\<close> that guards the swap block (\<open>fudgeswap\<close> exists only when
  it is set), the constant \<open>OOM_ADJUST_MAX\<close> of \<open>linux/oom.h\<close> and the macro
  \<open>time_before_eq\<close> of \<open>linux/jiffies.h\<close>. The two headers are not part of this
  file, so the constant and the macro are parameters of the model.
\<close>

record lowmem_params =
  lowmem_adj :: "c_int arr6"
  lowmem_adj_size :: c_int
  lowmem_minfree :: "c_int arr6"
  lowmem_minfree_screen_on :: "c_int arr6"
  lowmem_minfree_screen_off :: "c_int arr6"
  lowmem_minfree_size :: c_int
  lowmem_minfile :: "c_ulong arr6"
  lowmem_minfile_size :: c_int
  lowmem_deathpending_timeout :: c_ulong
  lowmem_check_filepages :: "32 word"
  CONFIG_SWAP :: bool
  fudgeswap :: c_int
  OOM_ADJUST_MAX :: c_int
  time_before_eq :: "c_ulong \<Rightarrow> c_ulong \<Rightarrow> bool"

text \<open>
  What \<open>global_page_state\<close> and \<open>si_swapinfo\<close> return when \<open>lowmem_shrink\<close> asks:
  one field for each counter the function reads.
\<close>

record page_state =
  NR_FREE_PAGES :: c_ulong
  NR_FILE_PAGES :: c_ulong
  NR_SHMEM :: c_ulong
  NR_ACTIVE_ANON :: c_ulong
  NR_INACTIVE_ANON :: c_ulong
  NR_ACTIVE_FILE :: c_ulong
  NR_INACTIVE_FILE :: c_ulong
  freeswap :: c_ulong

text \<open>
  One entry of \<open>for_each_process\<close>. \<open>PF_KTHREAD\<close> is the flag bit of the entry;
  \<open>has_mm\<close> says that \<open>find_lock_task_mm\<close> finds a thread with an address space, and
  the other fields are those of the thread it returns: its pid, its \<open>TIF_MEMDIE\<close>
  flag, \<open>signal->oom_adj\<close> and \<open>get_mm_rss\<close> of its mm.
\<close>

record process =
  PF_KTHREAD :: bool
  has_mm :: bool
  pid :: nat
  TIF_MEMDIE :: bool
  oom_adj :: c_int
  mm_rss :: c_ulong

text \<open>
  The state one call of \<open>lowmem_shrink\<close> sees and changes: the module's globals, the
  page counters, the clock, the process list, and the SIGKILLs sent so far (by pid).
\<close>

record kernel =
  params :: lowmem_params
  vm_stat :: page_state
  jiffies :: c_ulong
  tasks :: "process list"
  sigkills :: "nat list"

section \<open>lowmem_shrink\<close>

subsection \<open>The snapshot (lines 130 to 148)\<close>

definition other_free_of :: "page_state \<Rightarrow> c_int" where
  "other_free_of v = NR_FREE_PAGES v"

text \<open>The unsigned subtraction wraps; read as \<open>int\<close> it is negative when shmem is larger.\<close>

definition other_file_raw :: "page_state \<Rightarrow> c_int" where
  "other_file_raw v = NR_FILE_PAGES v - NR_SHMEM v"

definition lru_file_of :: "page_state \<Rightarrow> c_int" where
  "lru_file_of v = NR_ACTIVE_FILE v + NR_INACTIVE_FILE v"

text \<open>
  The block under \<open>CONFIG_SWAP\<close>. \<open>si.freeswap\<close> is an \<open>unsigned long\<close>, so both
  \<open>si.freeswap > 0\<close> and \<open>fudgeswap > si.freeswap\<close> are unsigned comparisons.
\<close>

definition swap_credit :: "lowmem_params \<Rightarrow> page_state \<Rightarrow> c_int \<Rightarrow> c_int" where
  "swap_credit P v other_file =
     (if CONFIG_SWAP P \<and> fudgeswap P \<noteq> 0 then
        (if 0 < freeswap v then
           (if freeswap v < fudgeswap P then other_file + freeswap v
            else other_file + fudgeswap P)
         else other_file)
      else other_file)"

definition other_file_of :: "lowmem_params \<Rightarrow> page_state \<Rightarrow> c_int" where
  "other_file_of P v = swap_credit P v (other_file_raw v)"

subsection \<open>The tier walk (lines 150 to 164)\<close>

definition array_size_of :: "lowmem_params \<Rightarrow> c_int" where
  "array_size_of P =
     (let array_size = ARRAY_SIZE (lowmem_adj P);
          array_size = (if lowmem_adj_size P <s array_size then lowmem_adj_size P else array_size);
          array_size = (if lowmem_minfree_size P <s array_size then lowmem_minfree_size P else array_size)
      in array_size)"

text \<open>
  The \<open>for\<close> loop over \<open>i\<close>, from the value \<open>i\<close> on; \<open>min_adj\<close> is the value the
  variable has when the loop is entered. The loop counter never leaves \<open>0..6\<close>, so it is a
  \<open>nat\<close>, compared with the signed \<open>array_size\<close>.
\<close>

function tier_loop ::
  "lowmem_params \<Rightarrow> c_int \<Rightarrow> c_int \<Rightarrow> c_int \<Rightarrow> c_int \<Rightarrow> nat \<Rightarrow> c_int \<Rightarrow> fault + c_int" where
  "tier_loop P other_free other_file lru_file array_size i min_adj =
     (if int i < sint array_size then
        (case index6 (lowmem_minfree P) i of
           Inl e \<Rightarrow> Inl e
         | Inr minfree_i \<Rightarrow>
             if other_free <s minfree_i then
               (if other_file <s minfree_i then index6 (lowmem_adj P) i
                else if lowmem_check_filepages P \<noteq> 0 then
                  (case index6 (lowmem_minfile P) i of
                     Inl e \<Rightarrow> Inl e
                   | Inr minfile_i \<Rightarrow>
                       if lru_file < minfile_i then index6 (lowmem_adj P) i
                       else tier_loop P other_free other_file lru_file array_size (Suc i) min_adj)
                else tier_loop P other_free other_file lru_file array_size (Suc i) min_adj)
             else tier_loop P other_free other_file lru_file array_size (Suc i) min_adj)
      else Inr min_adj)"
  by pat_completeness auto
termination
  by (relation "measure (\<lambda>(P, fr, fi, lru, n, i, m). nat (sint n) - i)") auto

declare tier_loop.simps [simp del]

text \<open>The value of \<open>min_adj\<close> after the loop.\<close>

definition lowmem_min_adj :: "lowmem_params \<Rightarrow> page_state \<Rightarrow> fault + c_int" where
  "lowmem_min_adj P v =
     tier_loop P (other_free_of v) (other_file_of P v) (lru_file_of v)
       (array_size_of P) 0 (OOM_ADJUST_MAX P + 1)"

subsection \<open>The process scan (lines 184 to 224)\<close>

text \<open>
  The three variables the scan updates. \<open>selected\<close> points into the process list: it is
  the position of the entry, or \<open>None\<close> for \<open>NULL\<close>.
\<close>

record selection =
  selected :: "nat option"
  selected_tasksize :: c_int
  selected_oom_adj :: c_int

text \<open>
  The body of \<open>for_each_process\<close> on the entries from position \<open>k\<close> on, with
  \<open>now\<close> for \<open>jiffies\<close>. \<open>None\<close> is the \<open>return 0\<close> of line 200, taken when a
  thread that is already dying is met before the deadline.
\<close>

fun process_loop ::
  "lowmem_params \<Rightarrow> c_ulong \<Rightarrow> c_int \<Rightarrow> process list \<Rightarrow> nat \<Rightarrow> selection \<Rightarrow> selection option" where
  "process_loop P now min_adj [] k sel = Some sel"
| "process_loop P now min_adj (tsk # rest) k sel =
     (if PF_KTHREAD tsk then process_loop P now min_adj rest (Suc k) sel
      else if \<not> has_mm tsk then process_loop P now min_adj rest (Suc k) sel
      else if TIF_MEMDIE tsk \<and> time_before_eq P now (lowmem_deathpending_timeout P) then None
      else if oom_adj tsk <s min_adj then process_loop P now min_adj rest (Suc k) sel
      else if mm_rss tsk \<le>s 0 then process_loop P now min_adj rest (Suc k) sel
      else if selected sel \<noteq> None \<and> oom_adj tsk <s selected_oom_adj sel
        then process_loop P now min_adj rest (Suc k) sel
      else if selected sel \<noteq> None \<and> oom_adj tsk = selected_oom_adj sel
                \<and> mm_rss tsk \<le>s selected_tasksize sel
        then process_loop P now min_adj rest (Suc k) sel
      else process_loop P now min_adj rest (Suc k)
             \<lparr>selected = Some k, selected_tasksize = mm_rss tsk, selected_oom_adj = oom_adj tsk\<rparr>)"

subsection \<open>The whole function\<close>

text \<open>
  The five ways the function returns, each with the value of its \<open>return\<close>:
  line 167 (no tier is breached), line 180 (\<open>nr_to_scan <= 0\<close>: the caller only asks for
  the cache size), line 200 (a dying thread is still within the deadline), and line 238
  either after a SIGKILL (pid, size and the remaining count) or with \<open>rem = -1\<close>.
\<close>

datatype outcome =
  NoActionNeeded
| CacheSize c_int
| DeferredCooldownActive
| Killed nat c_int c_int
| NoEligibleVictim

fun retval :: "outcome \<Rightarrow> c_int" where
  "retval NoActionNeeded = 0"
| "retval (CacheSize rem) = rem"
| "retval DeferredCooldownActive = 0"
| "retval (Killed p tasksize rem) = rem"
| "retval NoEligibleVictim = - 1"

definition rem_of :: "page_state \<Rightarrow> c_int" where
  "rem_of v = NR_ACTIVE_ANON v + NR_ACTIVE_FILE v + NR_INACTIVE_ANON v + NR_INACTIVE_FILE v"

text \<open>\<open>send_sig(SIGKILL, selected, 0)\<close> and \<open>set_tsk_thread_flag(selected, TIF_MEMDIE)\<close>.\<close>

definition send_sigkill :: "nat \<Rightarrow> kernel \<Rightarrow> kernel" where
  "send_sigkill k K =
     K\<lparr>sigkills := sigkills K @ [pid (tasks K ! k)],
       tasks := (tasks K)[k := (tasks K ! k)\<lparr>TIF_MEMDIE := True\<rparr>]\<rparr>"

definition lowmem_shrink :: "c_int \<Rightarrow> kernel \<Rightarrow> fault + (outcome \<times> kernel)" where
  "lowmem_shrink nr_to_scan K =
     (case lowmem_min_adj (params K) (vm_stat K) of
        Inl e \<Rightarrow> Inl e
      | Inr min_adj \<Rightarrow>
          if min_adj = OOM_ADJUST_MAX (params K) + 1 then Inr (NoActionNeeded, K)
          else if nr_to_scan \<le>s 0 then Inr (CacheSize (rem_of (vm_stat K)), K)
          else
            (case process_loop (params K) (jiffies K) min_adj (tasks K) 0
                    \<lparr>selected = None, selected_tasksize = 0, selected_oom_adj = min_adj\<rparr> of
               None \<Rightarrow> Inr (DeferredCooldownActive, K)
             | Some sel \<Rightarrow>
                 (case selected sel of
                    Some k \<Rightarrow>
                      Inr (Killed (pid (tasks K ! k)) (selected_tasksize sel)
                             (rem_of (vm_stat K) - selected_tasksize sel),
                           send_sigkill k K)
                  | None \<Rightarrow> Inr (NoEligibleVictim, K))))"

subsection \<open>The early-suspend hooks (lines 247 to 256)\<close>

text \<open>
  All three tables are \<open>int[6]\<close>, so each \<open>memcpy\<close> of \<open>sizeof\<close> one of them copies the
  whole table.
\<close>

definition low_mem_early_suspend :: "lowmem_params \<Rightarrow> lowmem_params" where
  "low_mem_early_suspend P =
     (let P1 = P\<lparr>lowmem_minfree_screen_on := lowmem_minfree P\<rparr>
      in P1\<lparr>lowmem_minfree := lowmem_minfree_screen_off P1\<rparr>)"

definition low_mem_late_resume :: "lowmem_params \<Rightarrow> lowmem_params" where
  "low_mem_late_resume P = P\<lparr>lowmem_minfree := lowmem_minfree_screen_on P\<rparr>"

section \<open>The vocabulary of the properties\<close>

subsection \<open>Tiers\<close>

text \<open>The number of tiers the loop visits: \<open>array_size\<close> when the loop starts.\<close>

definition tier_count :: "lowmem_params \<Rightarrow> nat" where
  "tier_count P = nat (sint (array_size_of P))"

text \<open>
  The condition of lines 155 to 158 on tier \<open>i\<close>, for the three values the function
  derives from the counters.
\<close>

definition tier_breached :: "lowmem_params \<Rightarrow> page_state \<Rightarrow> nat \<Rightarrow> bool" where
  "tier_breached P v i =
     (other_free_of v <s list6 (lowmem_minfree P) ! i \<and>
      (other_file_of P v <s list6 (lowmem_minfree P) ! i \<or>
       (lowmem_check_filepages P \<noteq> 0 \<and> lru_file_of v < list6 (lowmem_minfile P) ! i)))"

text \<open>
  The Threshold Evaluator as the specification words it: a tier is a triple, the table a
  list of tiers, and the evaluator walks the list and returns the cutoff of the first
  breached tier, or none. It is compared with \<open>tier_loop\<close> below.
\<close>

record tier =
  priority_cutoff :: c_int
  min_free_pages :: c_int
  min_file_pages :: c_ulong

definition table_of :: "lowmem_params \<Rightarrow> tier list" where
  "table_of P =
     map (\<lambda>(a, f, l). \<lparr>priority_cutoff = a, min_free_pages = f, min_file_pages = l\<rparr>)
       (zip (list6 (lowmem_adj P)) (zip (list6 (lowmem_minfree P)) (list6 (lowmem_minfile P))))"

definition spec_tier_breached :: "bool \<Rightarrow> c_int \<Rightarrow> c_int \<Rightarrow> c_int \<Rightarrow> tier \<Rightarrow> bool" where
  "spec_tier_breached chk fr fi lru t =
     (fr <s min_free_pages t \<and> (fi <s min_free_pages t \<or> (chk \<and> lru < min_file_pages t)))"

fun spec_evaluate_pressure :: "bool \<Rightarrow> c_int \<Rightarrow> c_int \<Rightarrow> c_int \<Rightarrow> tier list \<Rightarrow> c_int option" where
  "spec_evaluate_pressure chk fr fi lru [] = None"
| "spec_evaluate_pressure chk fr fi lru (t # ts) =
     (if spec_tier_breached chk fr fi lru t then Some (priority_cutoff t)
      else spec_evaluate_pressure chk fr fi lru ts)"

subsection \<open>Candidates\<close>

text \<open>
  A candidate survives the filter of lines 189 to 211 when it is not a kernel thread, has
  an address space, has \<open>oom_adj\<close> at least \<open>min_adj\<close> and a positive resident size.
\<close>

definition eligible :: "c_int \<Rightarrow> process \<Rightarrow> bool" where
  "eligible min_adj p =
     (\<not> PF_KTHREAD p \<and> has_mm p \<and> min_adj \<le>s oom_adj p \<and> 0 <s mm_rss p)"

text \<open>
  The order of lines 212 to 218: first by \<open>oom_adj\<close>, then by resident size, both as
  signed ints.
\<close>

definition ranks_below :: "process \<Rightarrow> process \<Rightarrow> bool" where
  "ranks_below p q =
     (oom_adj p <s oom_adj q \<or> (oom_adj p = oom_adj q \<and> mm_rss p <s mm_rss q))"

definition ranks_at_most :: "process \<Rightarrow> process \<Rightarrow> bool" where
  "ranks_at_most p q =
     (oom_adj p <s oom_adj q \<or> (oom_adj p = oom_adj q \<and> mm_rss p \<le>s mm_rss q))"

text \<open>An entry on which line 196 returns: a dying thread met before the deadline.\<close>

definition death_pending :: "lowmem_params \<Rightarrow> c_ulong \<Rightarrow> process \<Rightarrow> bool" where
  "death_pending P now p =
     (\<not> PF_KTHREAD p \<and> has_mm p \<and> TIF_MEMDIE p \<and>
      time_before_eq P now (lowmem_deathpending_timeout P))"

text \<open>
  What the scan has established about the entries \<open>pre\<close> it has visited: \<open>selected\<close>
  is the first entry of highest rank among the candidates, and the two other variables
  hold its size and its \<open>oom_adj\<close>.
\<close>

definition sel_inv :: "c_int \<Rightarrow> process list \<Rightarrow> selection \<Rightarrow> bool" where
  "sel_inv m pre sel =
     (case selected sel of
        None \<Rightarrow> (\<forall>j<length pre. \<not> eligible m (pre ! j))
      | Some b \<Rightarrow>
          b < length pre \<and> eligible m (pre ! b) \<and>
          selected_tasksize sel = mm_rss (pre ! b) \<and> selected_oom_adj sel = oom_adj (pre ! b) \<and>
          (\<forall>j<length pre. eligible m (pre ! j) \<longrightarrow> ranks_at_most (pre ! j) (pre ! b)) \<and>
          (\<forall>j<b. eligible m (pre ! j) \<longrightarrow> ranks_below (pre ! j) (pre ! b)))"

subsection \<open>Repeated calls and the specification's readings\<close>

text \<open>
  Calls in a row: one call of \<open>lowmem_shrink\<close> for each \<open>nr_to_scan\<close> of the list, each
  on the state the call before it left.
\<close>

fun lowmem_shrink_seq :: "c_int list \<Rightarrow> kernel \<Rightarrow> fault + (outcome list \<times> kernel)" where
  "lowmem_shrink_seq [] K = Inr ([], K)"
| "lowmem_shrink_seq (n # ns) K =
     (case lowmem_shrink n K of
        Inl e \<Rightarrow> Inl e
      | Inr (r, K') \<Rightarrow>
          (case lowmem_shrink_seq ns K' of
             Inl e \<Rightarrow> Inl e
           | Inr (rs, K'') \<Rightarrow> Inr (r # rs, K'')))"

text \<open>
  The length the specification gives a table whose arrays differ in length: the shortest
  of the three declared lengths, \<open>min_file\<close> included.
\<close>

definition spec_shortest_prefix :: "lowmem_params \<Rightarrow> nat" where
  "spec_shortest_prefix P =
     nat (min (sint (lowmem_adj_size P))
            (min (sint (lowmem_minfree_size P)) (sint (lowmem_minfile_size P))))"

text \<open>
  The snapshot as the specification words it: a negative counter is set to zero before it
  is used, so the derived file count is clamped before the swap credit is added to it.
\<close>

definition clamp_to_zero :: "c_int \<Rightarrow> c_int" where
  "clamp_to_zero x = (if x <s 0 then 0 else x)"

definition spec_other_file_clamped :: "lowmem_params \<Rightarrow> page_state \<Rightarrow> c_int" where
  "spec_other_file_clamped P v = swap_credit P v (clamp_to_zero (other_file_raw v))"

definition spec_min_adj_clamped :: "lowmem_params \<Rightarrow> page_state \<Rightarrow> fault + c_int" where
  "spec_min_adj_clamped P v =
     tier_loop P (clamp_to_zero (other_free_of v)) (spec_other_file_clamped P v)
       (clamp_to_zero (lru_file_of v)) (array_size_of P) 0 (OOM_ADJUST_MAX P + 1)"

section \<open>Concrete states\<close>

text \<open>
  The values this kernel's headers give the two parameters: \<open>OOM_ADJUST_MAX\<close> is 15, and
  \<open>time_before_eq(a, b)\<close> is \<open>(long)(b) - (long)(a) >= 0\<close>.
\<close>

definition jiffies_time_before_eq :: "c_ulong \<Rightarrow> c_ulong \<Rightarrow> bool" where
  "jiffies_time_before_eq a b = (0 \<le>s b - a)"

text \<open>
  The tables and scalars as the source initialises them, with \<open>CONFIG_SWAP\<close> set and the
  headers' values.
\<close>

definition default_params :: lowmem_params where
  "default_params =
     \<lparr>lowmem_adj = Arr6 0 1 2 4 6 15, lowmem_adj_size = 6,
      lowmem_minfree = Arr6 1536 2048 3072 4096 5120 6144,
      lowmem_minfree_screen_on = Arr6 1536 2048 3072 4096 5120 6144,
      lowmem_minfree_screen_off = Arr6 1536 2048 3072 4096 5120 6144,
      lowmem_minfree_size = 6,
      lowmem_minfile = Arr6 1536 2048 4096 8192 12288 16384,
      lowmem_minfile_size = 6,
      lowmem_deathpending_timeout = 0,
      lowmem_check_filepages = 0,
      CONFIG_SWAP = True,
      fudgeswap = 512,
      OOM_ADJUST_MAX = 15,
      time_before_eq = jiffies_time_before_eq\<rparr>"

text \<open>
  The two-tier table (0, 768, 1536), (8, 4096, 8192), written over the first two entries
  of each array, and a snapshot with 2000 free pages, 5000 file pages and 10000 LRU file
  pages. \<open>chk\<close> is the value of \<open>lowmem_check_filepages\<close>.
\<close>

definition scenario_params :: "32 word \<Rightarrow> lowmem_params" where
  "scenario_params chk =
     default_params
       \<lparr>lowmem_adj := Arr6 0 8 2 4 6 15, lowmem_adj_size := 2,
        lowmem_minfree := Arr6 768 4096 3072 4096 5120 6144, lowmem_minfree_size := 2,
        lowmem_minfile := Arr6 1536 8192 4096 8192 12288 16384, lowmem_minfile_size := 2,
        lowmem_check_filepages := chk\<rparr>"

definition scenario_pages :: page_state where
  "scenario_pages =
     \<lparr>NR_FREE_PAGES = 2000, NR_FILE_PAGES = 5000, NR_SHMEM = 0, NR_ACTIVE_ANON = 0,
      NR_INACTIVE_ANON = 0, NR_ACTIVE_FILE = 6000, NR_INACTIVE_FILE = 4000, freeswap = 0\<rparr>"

text \<open>
  Two entries written to \<open>minfile\<close> only, the file-page check on, and a snapshot that
  is below the third tier's min_free and min_file but above its first two tiers'.
\<close>

definition stale_minfile_params :: lowmem_params where
  "stale_minfile_params = default_params\<lparr>lowmem_minfile_size := 2, lowmem_check_filepages := 1\<rparr>"

definition stale_minfile_pages :: page_state where
  "stale_minfile_pages =
     \<lparr>NR_FREE_PAGES = 2500, NR_FILE_PAGES = 5000, NR_SHMEM = 0, NR_ACTIVE_ANON = 0,
      NR_INACTIVE_ANON = 0, NR_ACTIVE_FILE = 2000, NR_INACTIVE_FILE = 1000, freeswap = 0\<rparr>"

text \<open>
  Six priority entries and four min_free entries, and a snapshot that breaches the fifth
  tier only.
\<close>

definition short_minfree_params :: lowmem_params where
  "short_minfree_params = default_params\<lparr>lowmem_minfree_size := 4\<rparr>"

definition short_minfree_pages :: page_state where
  "short_minfree_pages =
     \<lparr>NR_FREE_PAGES = 4500, NR_FILE_PAGES = 100, NR_SHMEM = 0, NR_ACTIVE_ANON = 0,
      NR_INACTIVE_ANON = 0, NR_ACTIVE_FILE = 60, NR_INACTIVE_FILE = 40, freeswap = 0\<rparr>"

text \<open>
  A snapshot whose shmem count is 100 above its file count, with plenty of free swap and a
  budget of 1600 pages.
\<close>

definition negative_file_params :: lowmem_params where
  "negative_file_params = default_params\<lparr>fudgeswap := 1600\<rparr>"

definition negative_file_pages :: page_state where
  "negative_file_pages =
     \<lparr>NR_FREE_PAGES = 1000, NR_FILE_PAGES = 1000, NR_SHMEM = 1100, NR_ACTIVE_ANON = 0,
      NR_INACTIVE_ANON = 0, NR_ACTIVE_FILE = 600, NR_INACTIVE_FILE = 400, freeswap = 5000\<rparr>"



text \<open>
  Process lists. \<open>ranked_tasks\<close> has a kernel thread with a large footprint, three
  candidates of the highest priority (two of them of equal size), one of lower priority
  and one below every cutoff; in \<open>spared_tasks\<close> nothing survives the filter.
\<close>

definition user_task :: "nat \<Rightarrow> c_int \<Rightarrow> c_ulong \<Rightarrow> process" where
  "user_task p adj rss =
     \<lparr>PF_KTHREAD = False, has_mm = True, pid = p, TIF_MEMDIE = False, oom_adj = adj,
      mm_rss = rss\<rparr>"

definition tight_pages :: page_state where
  "tight_pages =
     \<lparr>NR_FREE_PAGES = 1000, NR_FILE_PAGES = 500, NR_SHMEM = 0, NR_ACTIVE_ANON = 20000,
      NR_INACTIVE_ANON = 10000, NR_ACTIVE_FILE = 300, NR_INACTIVE_FILE = 200, freeswap = 0\<rparr>"

definition roomy_pages :: page_state where
  "roomy_pages =
     \<lparr>NR_FREE_PAGES = 7000, NR_FILE_PAGES = 100, NR_SHMEM = 0, NR_ACTIVE_ANON = 20000,
      NR_INACTIVE_ANON = 10000, NR_ACTIVE_FILE = 60, NR_INACTIVE_FILE = 40, freeswap = 0\<rparr>"

definition ranked_tasks :: "process list" where
  "ranked_tasks =
     [\<lparr>PF_KTHREAD = True, has_mm = True, pid = 2, TIF_MEMDIE = False, oom_adj = 15,
        mm_rss = 9999\<rparr>,
      user_task 10 15 800, user_task 11 15 900, user_task 12 15 900, user_task 13 8 5000,
      user_task 14 (- 17) 9000]"

definition ranked_kernel :: kernel where
  "ranked_kernel =
     \<lparr>params = default_params, vm_stat = tight_pages, jiffies = 1000, tasks = ranked_tasks,
      sigkills = []\<rparr>"

definition spared_tasks :: "process list" where
  "spared_tasks =
     [\<lparr>PF_KTHREAD = True, has_mm = True, pid = 2, TIF_MEMDIE = False, oom_adj = 15,
        mm_rss = 9999\<rparr>,
      \<lparr>PF_KTHREAD = False, has_mm = False, pid = 5, TIF_MEMDIE = False, oom_adj = 15,
        mm_rss = 0\<rparr>,
      user_task 20 (- 17) 5000, user_task 21 15 0]"

definition spared_kernel :: kernel where
  "spared_kernel =
     \<lparr>params = default_params, vm_stat = tight_pages, jiffies = 1000, tasks = spared_tasks,
      sigkills = []\<rparr>"

definition roomy_kernel :: kernel where
  "roomy_kernel =
     \<lparr>params = default_params, vm_stat = roomy_pages, jiffies = 1000, tasks = ranked_tasks,
      sigkills = []\<rparr>"

definition cooldown_kernel :: kernel where
  "cooldown_kernel =
     \<lparr>params = default_params, vm_stat = tight_pages, jiffies = 1000,
      tasks = [user_task 42 15 1000, user_task 43 15 500], sigkills = []\<rparr>"

text \<open>A screen-off table that differs from the active one.\<close>

definition dimmed_params :: lowmem_params where
  "dimmed_params =
     default_params\<lparr>lowmem_minfree_screen_off := Arr6 512 1024 1536 2048 2560 3072\<rparr>"

section \<open>Facts about the tier walk\<close>

lemma length_list6 [simp]: "length (list6 a) = 6"
  by (cases a) simp

lemma index6_in_range: "i < 6 \<Longrightarrow> index6 a i = Inr (list6 a ! i)"
  by (simp add: index6_def)

lemma sint_array_size_of:
  "sint (array_size_of P) = min 6 (min (sint (lowmem_adj_size P)) (sint (lowmem_minfree_size P)))"
  by (simp add: array_size_of_def ARRAY_SIZE_def Let_def word_sless_alt min_def)

lemma tier_count_le: "tier_count P \<le> 6"
  by (simp add: tier_count_def sint_array_size_of)

lemma length_table_of [simp]: "length (table_of P) = 6"
  by (simp add: table_of_def)

lemma table_of_nth:
  "i < 6 \<Longrightarrow> table_of P ! i =
     \<lparr>priority_cutoff = list6 (lowmem_adj P) ! i, min_free_pages = list6 (lowmem_minfree P) ! i,
      min_file_pages = list6 (lowmem_minfile P) ! i\<rparr>"
  by (simp add: table_of_def)

lemma tier_loop_refines:
  assumes "nat (sint n) \<le> 6"
  shows "tier_loop P fr fi lru n i m =
      Inr (case spec_evaluate_pressure (lowmem_check_filepages P \<noteq> 0) fr fi lru
                  (drop i (take (nat (sint n)) (table_of P))) of
             None \<Rightarrow> m | Some c \<Rightarrow> c)"
  using assms
proof (induction P fr fi lru n i m rule: tier_loop.induct)
  case (1 P fr fi lru n i m)
  show ?case
  proof (cases "int i < sint n")
    case False
    then have "drop i (take (nat (sint n)) (table_of P)) = []" by simp
    with False show ?thesis by (subst tier_loop.simps) simp
  next
    case True
    then have i6: "i < 6" and iN: "i < nat (sint n)" using "1.prems" by linarith+
    let ?ts = "take (nat (sint n)) (table_of P)"
    have len: "i < length ?ts" using iN "1.prems" by simp
    have dr: "drop i ?ts = table_of P ! i # drop (Suc i) ?ts"
      using Cons_nth_drop_Suc [OF len] iN by simp
    note IH = "1.IH" [OF True]
    show ?thesis
      apply (subst tier_loop.simps)
      using True i6 "1.prems" IH
      apply (simp add: index6_in_range dr table_of_nth spec_tier_breached_def)
      done
  qed
qed

lemma spec_evaluate_pressure_first:
  "k < length ts \<Longrightarrow> spec_tier_breached chk fr fi lru (ts ! k) \<Longrightarrow>
   (\<And>j. j < k \<Longrightarrow> \<not> spec_tier_breached chk fr fi lru (ts ! j)) \<Longrightarrow>
   spec_evaluate_pressure chk fr fi lru ts = Some (priority_cutoff (ts ! k))"
proof (induction ts arbitrary: k)
  case Nil
  then show ?case by simp
next
  case (Cons t ts)
  show ?case
  proof (cases k)
    case 0
    with Cons.prems(2) show ?thesis by simp
  next
    case (Suc k')
    have "\<not> spec_tier_breached chk fr fi lru t"
      using Cons.prems(3) [of 0] Suc by simp
    moreover have "spec_evaluate_pressure chk fr fi lru ts = Some (priority_cutoff (ts ! k'))"
    proof (rule Cons.IH)
      show "k' < length ts" using Cons.prems(1) Suc by simp
      show "spec_tier_breached chk fr fi lru (ts ! k')" using Cons.prems(2) Suc by simp
      show "\<not> spec_tier_breached chk fr fi lru (ts ! j)" if "j < k'" for j
        using Cons.prems(3) [of "Suc j"] that Suc by simp
    qed
    ultimately show ?thesis using Suc by simp
  qed
qed

lemma spec_evaluate_pressure_none:
  "(\<And>j. j < length ts \<Longrightarrow> \<not> spec_tier_breached chk fr fi lru (ts ! j)) \<Longrightarrow>
   spec_evaluate_pressure chk fr fi lru ts = None"
proof (induction ts)
  case Nil
  then show ?case by simp
next
  case (Cons t ts)
  have "\<not> spec_tier_breached chk fr fi lru t" using Cons.prems [of 0] by simp
  moreover have "spec_evaluate_pressure chk fr fi lru ts = None"
  proof (rule Cons.IH)
    show "\<not> spec_tier_breached chk fr fi lru (ts ! j)" if "j < length ts" for j
      using Cons.prems [of "Suc j"] that by simp
  qed
  ultimately show ?case by simp
qed

lemma lowmem_min_adj_refines:
  "lowmem_min_adj P v =
     Inr (case spec_evaluate_pressure (lowmem_check_filepages P \<noteq> 0) (other_free_of v)
                 (other_file_of P v) (lru_file_of v) (take (tier_count P) (table_of P)) of
            None \<Rightarrow> OOM_ADJUST_MAX P + 1 | Some c \<Rightarrow> c)"
  using tier_loop_refines [of "array_size_of P" P "other_free_of v" "other_file_of P v"
      "lru_file_of v" 0 "OOM_ADJUST_MAX P + 1"] tier_count_le [of P]
  by (simp add: lowmem_min_adj_def tier_count_def)

lemma tier_breached_table:
  "i < tier_count P \<Longrightarrow>
   spec_tier_breached (lowmem_check_filepages P \<noteq> 0) (other_free_of v) (other_file_of P v)
     (lru_file_of v) (table_of P ! i) = tier_breached P v i"
  using tier_count_le [of P]
  by (simp add: spec_tier_breached_def tier_breached_def table_of_nth)

lemma lowmem_min_adj_first:
  assumes "k < tier_count P" and "tier_breached P v k"
    and "\<And>j. j < k \<Longrightarrow> \<not> tier_breached P v j"
  shows "lowmem_min_adj P v = Inr (list6 (lowmem_adj P) ! k)"
proof -
  let ?ts = "take (tier_count P) (table_of P)"
  have len: "length ?ts = tier_count P" using tier_count_le [of P] by simp
  have "spec_evaluate_pressure (lowmem_check_filepages P \<noteq> 0) (other_free_of v)
          (other_file_of P v) (lru_file_of v) ?ts = Some (priority_cutoff (?ts ! k))"
  proof (rule spec_evaluate_pressure_first)
    show "k < length ?ts" using assms(1) len by simp
    show "spec_tier_breached (lowmem_check_filepages P \<noteq> 0) (other_free_of v)
            (other_file_of P v) (lru_file_of v) (?ts ! k)"
      using assms(1,2) by (simp add: tier_breached_table)
    show "\<not> spec_tier_breached (lowmem_check_filepages P \<noteq> 0) (other_free_of v)
            (other_file_of P v) (lru_file_of v) (?ts ! j)" if "j < k" for j
    proof -
      have "j < tier_count P" using that assms(1) by simp
      then show ?thesis using assms(3) [OF that] by (simp add: tier_breached_table)
    qed
  qed
  moreover have "priority_cutoff (?ts ! k) = list6 (lowmem_adj P) ! k"
    using assms(1) tier_count_le [of P] by (simp add: table_of_nth)
  ultimately show ?thesis by (simp add: lowmem_min_adj_refines)
qed

lemma lowmem_min_adj_none:
  assumes "\<And>j. j < tier_count P \<Longrightarrow> \<not> tier_breached P v j"
  shows "lowmem_min_adj P v = Inr (OOM_ADJUST_MAX P + 1)"
proof -
  let ?ts = "take (tier_count P) (table_of P)"
  have len: "length ?ts = tier_count P" using tier_count_le [of P] by simp
  have "spec_evaluate_pressure (lowmem_check_filepages P \<noteq> 0) (other_free_of v)
          (other_file_of P v) (lru_file_of v) ?ts = None"
  proof (rule spec_evaluate_pressure_none)
    show "\<not> spec_tier_breached (lowmem_check_filepages P \<noteq> 0) (other_free_of v)
            (other_file_of P v) (lru_file_of v) (?ts ! j)" if "j < length ?ts" for j
    proof -
      have "j < tier_count P" using that len by simp
      then show ?thesis using assms by (simp add: tier_breached_table)
    qed
  qed
  then show ?thesis by (simp add: lowmem_min_adj_refines)
qed

lemma word_sle_refl: "(a :: 'a::len word) \<le>s a"
  by (simp add: word_sle_eq)

section \<open>Facts about the process scan\<close>

lemma ranks_at_most_refl: "ranks_at_most p p"
  by (simp add: ranks_at_most_def word_sle_eq)

lemma ranks_total: "ranks_at_most p q \<or> ranks_below q p"
  by (auto simp: ranks_at_most_def ranks_below_def word_sle_eq word_sless_alt word_eq_iff_signed [where ?'a = int])

lemma ranks_trans: "ranks_at_most p q \<Longrightarrow> ranks_below q r \<Longrightarrow> ranks_below p r"
  by (auto simp: ranks_at_most_def ranks_below_def word_sle_eq word_sless_alt)

lemma ranks_below_at_most: "ranks_below p q \<Longrightarrow> ranks_at_most p q"
  by (auto simp: ranks_at_most_def ranks_below_def word_sle_eq word_sless_alt)

lemma sel_inv_skip:
  assumes "sel_inv m pre sel" and "\<not> eligible m tsk"
  shows "sel_inv m (pre @ [tsk]) sel"
  using assms
  by (auto simp: sel_inv_def nth_append less_Suc_eq split: option.splits)

lemma sel_inv_keep:
  assumes "sel_inv m pre sel" and "selected sel = Some b" and "ranks_at_most tsk (pre ! b)"
  shows "sel_inv m (pre @ [tsk]) sel"
  using assms
  by (auto simp: sel_inv_def nth_append less_Suc_eq split: option.splits)

lemma sel_inv_take:
  assumes "sel_inv m pre sel" and "eligible m tsk"
    and "\<And>b. selected sel = Some b \<Longrightarrow> ranks_below (pre ! b) tsk"
  shows "sel_inv m (pre @ [tsk])
           \<lparr>selected = Some (length pre), selected_tasksize = mm_rss tsk,
              selected_oom_adj = oom_adj tsk\<rparr>"
proof (cases "selected sel")
  case None
  with assms(1,2) show ?thesis
    by (auto simp: sel_inv_def nth_append less_Suc_eq ranks_at_most_refl)
next
  case (Some b)
  have below: "ranks_below (pre ! b) tsk" using assms(3) Some by simp
  have "ranks_below (pre ! j) tsk" if "j < length pre" "eligible m (pre ! j)" for j
  proof -
    have "ranks_at_most (pre ! j) (pre ! b)"
      using assms(1) Some that by (simp add: sel_inv_def)
    then show ?thesis using below by (rule ranks_trans)
  qed
  with assms(2) show ?thesis
    by (auto simp: sel_inv_def nth_append less_Suc_eq ranks_at_most_refl ranks_below_at_most)
qed

lemma process_loop_inv:
  "sel_inv m pre sel \<Longrightarrow> process_loop P now m rest (length pre) sel = Some sel' \<Longrightarrow>
   sel_inv m (pre @ rest) sel'"
proof (induction rest arbitrary: pre sel)
  case Nil
  then show ?case by simp
next
  case (Cons tsk rest)
  have step: "sel_inv m (pre @ tsk # rest) sel'"
    if "sel_inv m (pre @ [tsk]) sel1"
      and "process_loop P now m rest (Suc (length pre)) sel1 = Some sel'" for sel1
    using Cons.IH [of "pre @ [tsk]" sel1] that by simp
  consider (skip) "\<not> eligible m tsk" "\<not> death_pending P now tsk"
    | (abort) "death_pending P now tsk"
    | (keep) b where "eligible m tsk" "\<not> death_pending P now tsk" "selected sel = Some b"
        "ranks_at_most tsk (pre ! b)"
    | (take) "eligible m tsk" "\<not> death_pending P now tsk"
        "\<And>b. selected sel = Some b \<Longrightarrow> ranks_below (pre ! b) tsk"
    using ranks_total by (cases "selected sel") auto
  then show ?case
  proof cases
    case skip
    then have "process_loop P now m (tsk # rest) (length pre) sel =
        process_loop P now m rest (Suc (length pre)) sel"
      by (auto simp: eligible_def death_pending_def word_sle_eq word_sless_alt)
    with Cons.prems(2) sel_inv_skip [OF Cons.prems(1) skip(1)] show ?thesis
      by (intro step [of sel]) simp_all
  next
    case abort
    then have "process_loop P now m (tsk # rest) (length pre) sel = None"
      by (simp add: death_pending_def)
    with Cons.prems(2) show ?thesis by simp
  next
    case keep
    have sz: "selected_tasksize sel = mm_rss (pre ! b)" "selected_oom_adj sel = oom_adj (pre ! b)"
      using Cons.prems(1) keep(3) by (simp_all add: sel_inv_def)
    have "process_loop P now m (tsk # rest) (length pre) sel =
        process_loop P now m rest (Suc (length pre)) sel"
      using keep sz
      by (auto simp: eligible_def death_pending_def ranks_at_most_def word_sle_eq word_sless_alt)
    with Cons.prems(2) sel_inv_keep [OF Cons.prems(1) keep(3,4)] show ?thesis
      by (intro step [of sel]) simp_all
  next
    case take
    let ?new = "\<lparr>selected = Some (length pre), selected_tasksize = mm_rss tsk,
              selected_oom_adj = oom_adj tsk\<rparr>"
    have "process_loop P now m (tsk # rest) (length pre) sel =
        process_loop P now m rest (Suc (length pre)) ?new"
    proof (cases "selected sel")
      case None
      with take(1,2) show ?thesis
        by (auto simp: eligible_def death_pending_def word_sle_eq word_sless_alt)
    next
      case (Some b)
      have sz: "selected_tasksize sel = mm_rss (pre ! b)" "selected_oom_adj sel = oom_adj (pre ! b)"
        using Cons.prems(1) Some by (simp_all add: sel_inv_def)
      have below: "ranks_below (pre ! b) tsk" by (rule take(3) [OF Some])
      have c6: "\<not> oom_adj tsk <s selected_oom_adj sel"
        using below unfolding sz ranks_below_def word_sless_alt by auto
      have c7: "\<not> (oom_adj tsk = selected_oom_adj sel \<and> mm_rss tsk \<le>s selected_tasksize sel)"
        using below unfolding sz ranks_below_def word_sless_alt word_sle_eq by auto
      have c1: "\<not> PF_KTHREAD tsk" "has_mm tsk" "\<not> oom_adj tsk <s m" "\<not> mm_rss tsk \<le>s 0"
        using take(1) unfolding eligible_def word_sless_alt word_sle_eq by auto
      have c3: "\<not> (TIF_MEMDIE tsk \<and> time_before_eq P now (lowmem_deathpending_timeout P))"
        using take(2) c1 unfolding death_pending_def by auto
      show ?thesis using c1 c3 c6 c7 by auto
    qed
    with Cons.prems(2) sel_inv_take [OF Cons.prems(1) take(1,3)] show ?thesis
      by (intro step [of ?new]) simp_all
  qed
qed

lemma process_loop_None_iff:
  "process_loop P now m ps k sel = None \<longleftrightarrow> (\<exists>p\<in>set ps. death_pending P now p)"
  by (induction ps arbitrary: k sel) (auto simp: death_pending_def)

lemma process_loop_nobody:
  "(\<And>p. p \<in> set ps \<Longrightarrow> \<not> eligible m p \<and> \<not> death_pending P now p) \<Longrightarrow>
   process_loop P now m ps k sel = Some sel"
proof (induction ps arbitrary: k)
  case Nil
  then show ?case by simp
next
  case (Cons tsk ps)
  have "\<not> eligible m tsk" "\<not> death_pending P now tsk" using Cons.prems [of tsk] by simp_all
  then have "process_loop P now m (tsk # ps) k sel = process_loop P now m ps (Suc k) sel"
    by (auto simp: eligible_def death_pending_def word_sle_eq word_sless_alt)
  moreover have "process_loop P now m ps (Suc k) sel = Some sel"
    using Cons.prems by (intro Cons.IH) simp
  ultimately show ?case by simp
qed

lemma tier_count_eq:
  "tier_count P = nat (min 6 (min (sint (lowmem_adj_size P)) (sint (lowmem_minfree_size P))))"
  by (simp add: tier_count_def sint_array_size_of)

lemma lowmem_min_adj_total: "\<exists>m. lowmem_min_adj P v = Inr m"
  by (simp add: lowmem_min_adj_refines)

section \<open>Facts about the snapshot\<close>





lemma spec_tier_breached_clamp:
  assumes "0 \<le>s fr"
  shows "spec_tier_breached chk fr (clamp_to_zero fi) lru t = spec_tier_breached chk fr fi lru t"
  using assms
  by (auto simp: spec_tier_breached_def clamp_to_zero_def word_sle_eq word_sless_alt)

lemma spec_evaluate_pressure_clamp:
  assumes "0 \<le>s fr"
  shows "spec_evaluate_pressure chk fr (clamp_to_zero fi) lru ts =
         spec_evaluate_pressure chk fr fi lru ts"
  by (induction ts) (simp_all add: spec_tier_breached_clamp [OF assms])

section \<open>Facts about the whole function\<close>

lemma sel_inv_initial:
  "sel_inv m [] \<lparr>selected = None, selected_tasksize = 0, selected_oom_adj = m\<rparr>"
  by (simp add: sel_inv_def)

lemma no_pressure_min_adj:
  assumes "\<forall>i<tier_count P. list6 (lowmem_minfree P) ! i \<le>s other_free_of v"
  shows "lowmem_min_adj P v = Inr (OOM_ADJUST_MAX P + 1)"
proof (rule lowmem_min_adj_none)
  fix j assume "j < tier_count P"
  then have "list6 (lowmem_minfree P) ! j \<le>s other_free_of v" using assms by blast
  then show "\<not> tier_breached P v j"
    by (simp add: tier_breached_def word_sle_eq word_sless_alt)
qed

lemma no_pressure_seq:
  assumes "lowmem_min_adj (params K) (vm_stat K) = Inr (OOM_ADJUST_MAX (params K) + 1)"
  shows "lowmem_shrink_seq ns K = Inr (replicate (length ns) NoActionNeeded, K)"
  by (induction ns) (simp_all add: lowmem_shrink_def assms)

lemma lowmem_shrink_total: "\<exists>r. lowmem_shrink n K = Inr r"
proof -
  obtain m where "lowmem_min_adj (params K) (vm_stat K) = Inr m"
    using lowmem_min_adj_total by blast
  then show ?thesis
    by (simp add: lowmem_shrink_def split: option.splits)
qed

lemma lowmem_shrink_keeps_params:
  assumes "lowmem_shrink n K = Inr (r, K')"
  shows "params K' = params K"
  using assms unfolding lowmem_shrink_def
  by (auto simp: send_sigkill_def split: sum.splits if_splits option.splits)

section \<open>Evaluating the concrete states\<close>

lemmas snapshot_defs =
  other_free_of_def other_file_of_def other_file_raw_def lru_file_of_def swap_credit_def

lemmas walk_defs =
  lowmem_min_adj_def array_size_of_def ARRAY_SIZE_def index6_def
  tier_loop.simps

lemmas signed_cmp = word_sle_eq word_sless_alt

lemmas shrink_defs =
  lowmem_shrink_def send_sigkill_def jiffies_time_before_eq_def user_task_def

lemma scenario_snapshot:
  "other_free_of scenario_pages = 2000" "other_file_of (scenario_params chk) scenario_pages = 5000"
  "lru_file_of scenario_pages = 10000"
  by (simp_all add: snapshot_defs scenario_pages_def scenario_params_def default_params_def)

lemma scenario_min_adj:
  "lowmem_min_adj (scenario_params chk) scenario_pages = Inr (OOM_ADJUST_MAX (scenario_params chk) + 1)"
  by (simp add: walk_defs snapshot_defs scenario_pages_def scenario_params_def default_params_def)

lemma tight_min_adj: "lowmem_min_adj default_params tight_pages = Inr 0"
  by (simp add: walk_defs snapshot_defs default_params_def tight_pages_def)

lemma tight_rem: "rem_of tight_pages = 30500"
  by (simp add: rem_of_def tight_pages_def)

lemma default_timeout:
  "lowmem_deathpending_timeout default_params = 0"
  "OOM_ADJUST_MAX default_params = 15"
  "time_before_eq default_params = jiffies_time_before_eq"
  by (simp_all add: default_params_def)

lemma tier_count_default: "tier_count default_params = 6"
  by (simp add: tier_count_eq default_params_def)

section \<open>The cooldown deadline\<close>

text \<open>
  Claim C1 says that a kill marks the cooldown deadline, so that a call made before the
  deadline returns at line 200. The function reads \<open>lowmem_deathpending_timeout\<close> on
  line 197 and never assigns it (\<open>lowmem_shrink_keeps_params\<close>): it keeps its initial
  value 0. Evaluated on two candidates at jiffies 1000, the first call kills pid 42 and
  sets its \<open>TIF_MEMDIE\<close>; the deadline is still 0; a second call one tick later, with
  the victim still in the list, does not return at line 200 but sends SIGKILL to pid 42
  once more.
\<close>

theorem second_call_kills_again:
  "lowmem_shrink 1 cooldown_kernel =
     Inr (Killed 42 1000 29500, send_sigkill 0 cooldown_kernel) \<and>
   TIF_MEMDIE (tasks (send_sigkill 0 cooldown_kernel) ! 0) \<and>
   lowmem_deathpending_timeout (params (send_sigkill 0 cooldown_kernel)) = 0 \<and>
   lowmem_shrink 1 ((send_sigkill 0 cooldown_kernel)\<lparr>jiffies := 1001\<rparr>) =
     Inr (Killed 42 1000 29500,
          send_sigkill 0 ((send_sigkill 0 cooldown_kernel)\<lparr>jiffies := 1001\<rparr>)) \<and>
   sigkills (send_sigkill 0 ((send_sigkill 0 cooldown_kernel)\<lparr>jiffies := 1001\<rparr>)) = [42, 42]"
  by (simp add: shrink_defs cooldown_kernel_def tight_min_adj tight_rem default_timeout
      signed_cmp)

section \<open>The two-tier scenario\<close>

text \<open>
  Claim C2 expects the cutoff 8 for this table and snapshot. The walk does not return it,
  with the file-page check off or on.
\<close>

theorem scenario_counterexample:
  "lowmem_min_adj (scenario_params 0) scenario_pages \<noteq> Inr 8 \<and>
   lowmem_min_adj (scenario_params 1) scenario_pages \<noteq> Inr 8"
  by (simp add: walk_defs snapshot_defs scenario_pages_def scenario_params_def default_params_def)

text \<open>
  Claim C2 as amended. For the table (0, 768, 1536), (8, 4096, 8192) and the snapshot
  with free 2000, effective file 5000 and LRU file 10000, no tier is breached: free is
  not below 768, and in the second tier free is below 4096 but file is not below 4096
  (the file count is compared with min_free) and LRU file is not below 8192. The walk
  leaves \<open>min_adj\<close> at \<open>OOM_ADJUST_MAX + 1\<close>, and the function returns 0 at line 167
  without looking at any process and without changing the state.
\<close>

theorem scenario_breaches_no_tier:
  "other_free_of scenario_pages = 2000 \<and>
   other_file_of (scenario_params chk) scenario_pages = 5000 \<and>
   lru_file_of scenario_pages = 10000 \<and>
   lowmem_min_adj (scenario_params chk) scenario_pages =
     Inr (OOM_ADJUST_MAX (scenario_params chk) + 1) \<and>
   OOM_ADJUST_MAX (scenario_params chk) + 1 = 16 \<and>
   lowmem_shrink n
     \<lparr>params = scenario_params chk, vm_stat = scenario_pages, jiffies = now, tasks = ps,
      sigkills = sent\<rparr> =
   Inr (NoActionNeeded,
     \<lparr>params = scenario_params chk, vm_stat = scenario_pages, jiffies = now, tasks = ps,
      sigkills = sent\<rparr>)"
  by (simp add: scenario_snapshot scenario_min_adj lowmem_shrink_def)
    (simp add: scenario_params_def default_params_def)

section \<open>The first breached tier decides\<close>

text \<open>
  Claim C3. For every snapshot and every table whose visited min_free entries ascend, the
  walk returns the cutoff of the first tier whose condition holds (free below min_free,
  and file below min_free or, with the file-page check on, LRU file below min_file). No
  earlier tier is breached, every other breached tier has a min_free at least as large,
  and when no visited tier is breached \<open>min_adj\<close> keeps the value that stands for none,
  \<open>OOM_ADJUST_MAX + 1\<close>. (Line 166 tells none from a cutoff by that value alone, so a
  table entry equal to it reads as none too.)
\<close>

theorem first_breached_tier_decides:
  assumes "sorted_wrt (\<lambda>a b. a \<le>s b) (take (tier_count P) (list6 (lowmem_minfree P)))"
  shows "(\<exists>i<tier_count P. tier_breached P v i \<and> (\<forall>j<i. \<not> tier_breached P v j) \<and>
            (\<forall>j<tier_count P. tier_breached P v j \<longrightarrow>
               list6 (lowmem_minfree P) ! i \<le>s list6 (lowmem_minfree P) ! j) \<and>
            lowmem_min_adj P v = Inr (list6 (lowmem_adj P) ! i)) \<or>
         ((\<forall>i<tier_count P. \<not> tier_breached P v i) \<and>
            lowmem_min_adj P v = Inr (OOM_ADJUST_MAX P + 1))"
proof (cases "\<exists>i. i < tier_count P \<and> tier_breached P v i")
  case False
  then have "lowmem_min_adj P v = Inr (OOM_ADJUST_MAX P + 1)"
    by (intro lowmem_min_adj_none) blast
  with False show ?thesis by blast
next
  case True
  then obtain i where i: "i < tier_count P" "tier_breached P v i"
    and least: "\<And>j. j < i \<Longrightarrow> \<not> (j < tier_count P \<and> tier_breached P v j)"
    using exists_least_iff [of "\<lambda>i. i < tier_count P \<and> tier_breached P v i"] by blast
  have first: "\<not> tier_breached P v j" if "j < i" for j
    using least [OF that] that i(1) by simp
  have res: "lowmem_min_adj P v = Inr (list6 (lowmem_adj P) ! i)"
    using i first by (rule lowmem_min_adj_first)
  have low: "list6 (lowmem_minfree P) ! i \<le>s list6 (lowmem_minfree P) ! j"
    if "j < tier_count P" "tier_breached P v j" for j
  proof -
    have "i \<le> j" using first that(2) by (meson not_le_imp_less)
    show ?thesis
    proof (cases "i = j")
      case True
      then show ?thesis by (simp add: word_sle_refl)
    next
      case False
      with \<open>i \<le> j\<close> have "i < j" by simp
      moreover have "j < length (take (tier_count P) (list6 (lowmem_minfree P)))"
        using that(1) tier_count_le [of P] by simp
      ultimately have "take (tier_count P) (list6 (lowmem_minfree P)) ! i
          \<le>s take (tier_count P) (list6 (lowmem_minfree P)) ! j"
        using assms by (rule sorted_wrt_nth_less [rotated])
      then show ?thesis using that(1) \<open>i < j\<close> by simp
    qed
  qed
  show ?thesis using i first res low by blast
qed

text \<open>
  The default table ascends. With 2500 free pages and 5000 file pages the first breached
  tier is the fifth (min_free 5120), whose cutoff is 6.
\<close>

theorem first_breached_tier_decides_witness:
  "sorted_wrt (\<lambda>a b. a \<le>s b)
     (take (tier_count default_params) (list6 (lowmem_minfree default_params))) \<and>
   ((\<exists>i<tier_count default_params.
       tier_breached default_params stale_minfile_pages i \<and>
       (\<forall>j<i. \<not> tier_breached default_params stale_minfile_pages j) \<and>
       (\<forall>j<tier_count default_params. tier_breached default_params stale_minfile_pages j \<longrightarrow>
          list6 (lowmem_minfree default_params) ! i \<le>s list6 (lowmem_minfree default_params) ! j) \<and>
       lowmem_min_adj default_params stale_minfile_pages = Inr (list6 (lowmem_adj default_params) ! i)) \<or>
    ((\<forall>i<tier_count default_params. \<not> tier_breached default_params stale_minfile_pages i) \<and>
       lowmem_min_adj default_params stale_minfile_pages = Inr (OOM_ADJUST_MAX default_params + 1))) \<and>
   lowmem_min_adj default_params stale_minfile_pages = Inr 6"
proof -
  have h: "sorted_wrt (\<lambda>a b. a \<le>s b)
     (take (tier_count default_params) (list6 (lowmem_minfree default_params)))"
    unfolding tier_count_default by (simp add: default_params_def)
  have e: "lowmem_min_adj default_params stale_minfile_pages = Inr 6"
    by (simp add: walk_defs snapshot_defs stale_minfile_pages_def default_params_def)
  from first_breached_tier_decides [OF h, of stale_minfile_pages] h e show ?thesis
    by (intro conjI)
qed

section \<open>The victim\<close>

text \<open>
  Claim C4. Whenever a call kills, the victim is an entry of the process list that is not
  a kernel thread, has \<open>oom_adj\<close> at least the cutoff and a positive resident size; every
  candidate that survives the filter ranks at most as high (first by \<open>oom_adj\<close>, then
  by size), and every surviving candidate before it in the list ranks strictly below it:
  an equal candidate met later never replaces it.
\<close>

theorem victim_is_first_of_highest_rank:
  assumes "lowmem_shrink n K = Inr (Killed p sz r, K')"
  shows "\<exists>m k. lowmem_min_adj (params K) (vm_stat K) = Inr m \<and> k < length (tasks K) \<and>
           p = pid (tasks K ! k) \<and> sz = mm_rss (tasks K ! k) \<and>
           eligible m (tasks K ! k) \<and>
           (\<forall>j<length (tasks K). eligible m (tasks K ! j) \<longrightarrow>
              ranks_at_most (tasks K ! j) (tasks K ! k)) \<and>
           (\<forall>j<k. eligible m (tasks K ! j) \<longrightarrow> ranks_below (tasks K ! j) (tasks K ! k)) \<and>
           r = rem_of (vm_stat K) - sz \<and> K' = send_sigkill k K"
proof -
  obtain m where m: "lowmem_min_adj (params K) (vm_stat K) = Inr m"
    using lowmem_min_adj_total by blast
  let ?init = "\<lparr>selected = None, selected_tasksize = 0, selected_oom_adj = m\<rparr>"
  let ?scan = "process_loop (params K) (jiffies K) m (tasks K) 0 ?init"
  from assms obtain sel k where scan: "?scan = Some sel" and k: "selected sel = Some k"
    and res: "p = pid (tasks K ! k)" "sz = selected_tasksize sel" "K' = send_sigkill k K"
      "r = rem_of (vm_stat K) - sz"
    unfolding lowmem_shrink_def m
    by (auto split: if_splits option.splits)
  have "sel_inv m ([] @ tasks K) sel"
    using sel_inv_initial scan by (intro process_loop_inv [where pre = "[]"]) simp_all
  then have inv: "sel_inv m (tasks K) sel" by simp
  then have "k < length (tasks K)" "sz = mm_rss (tasks K ! k)" "eligible m (tasks K ! k)"
    "\<forall>j<length (tasks K). eligible m (tasks K ! j) \<longrightarrow> ranks_at_most (tasks K ! j) (tasks K ! k)"
    "\<forall>j<k. eligible m (tasks K ! j) \<longrightarrow> ranks_below (tasks K ! j) (tasks K ! k)"
    using k res(2) by (simp_all add: sel_inv_def)
  with m res(1,3,4) show ?thesis by blast
qed

text \<open>
  On \<open>ranked_tasks\<close> the kernel thread is passed over, pid 11 beats pid 10 by size, and
  pid 12, of the same priority and size, does not replace it.
\<close>

theorem victim_is_first_of_highest_rank_witness:
  "lowmem_shrink 1 ranked_kernel = Inr (Killed 11 900 29600, send_sigkill 2 ranked_kernel) \<and>
   (\<exists>m k. lowmem_min_adj (params ranked_kernel) (vm_stat ranked_kernel) = Inr m \<and>
      k < length (tasks ranked_kernel) \<and>
      11 = pid (tasks ranked_kernel ! k) \<and> 900 = mm_rss (tasks ranked_kernel ! k) \<and>
      eligible m (tasks ranked_kernel ! k) \<and>
      (\<forall>j<length (tasks ranked_kernel). eligible m (tasks ranked_kernel ! j) \<longrightarrow>
         ranks_at_most (tasks ranked_kernel ! j) (tasks ranked_kernel ! k)) \<and>
      (\<forall>j<k. eligible m (tasks ranked_kernel ! j) \<longrightarrow>
         ranks_below (tasks ranked_kernel ! j) (tasks ranked_kernel ! k)) \<and>
      29600 = rem_of (vm_stat ranked_kernel) - 900 \<and>
      send_sigkill 2 ranked_kernel = send_sigkill k ranked_kernel)"
proof -
  have e: "lowmem_shrink 1 ranked_kernel = Inr (Killed 11 900 29600, send_sigkill 2 ranked_kernel)"
    by (simp add: shrink_defs ranked_kernel_def ranked_tasks_def tight_min_adj tight_rem
        default_timeout signed_cmp)
  from victim_is_first_of_highest_rank [OF e] e show ?thesis by (rule conjI [rotated])
qed

section \<open>Tables of mismatched lengths\<close>

text \<open>
  Claim C5 says a table whose arrays differ in declared length is cut to the shortest of
  them, \<open>min_file\<close> included. Lines 150 to 153 cut \<open>array_size\<close> by
  \<open>lowmem_adj_size\<close> and \<open>lowmem_minfree_size\<close>; \<open>lowmem_minfile_size\<close>, declared
  beside them and bound to the \<open>minfile\<close> parameter, is never read. Evaluated with two
  min_file entries declared beside six priorities and six min_free entries, and the
  file-page check on, the walk still visits the third tier and returns its cutoff 2
  through the entry left in \<open>lowmem_minfile[2]\<close>, where the table of two tiers the claim
  describes has no breached tier.
\<close>

theorem stale_minfile_entry_is_read:
  "spec_shortest_prefix stale_minfile_params = 2 \<and>
   lowmem_min_adj stale_minfile_params stale_minfile_pages = Inr 2 \<and>
   spec_evaluate_pressure (lowmem_check_filepages stale_minfile_params \<noteq> 0)
     (other_free_of stale_minfile_pages)
     (other_file_of stale_minfile_params stale_minfile_pages)
     (lru_file_of stale_minfile_pages)
     (take (spec_shortest_prefix stale_minfile_params) (table_of stale_minfile_params)) = None"
  by (simp add: walk_defs snapshot_defs stale_minfile_params_def stale_minfile_pages_def
      default_params_def spec_shortest_prefix_def table_of_def spec_tier_breached_def)

text \<open>
  The part of the truncation the walk does carry out: it never fails, and its result is
  that of the evaluator on the table cut to its first \<open>tier_count\<close> tiers, the smallest
  of 6, the declared length of the priority array and the declared length of the
  min_free array (0 when that is negative). With 6 priorities and 4 min_free entries
  the table has 4 tiers.
\<close>

lemma walk_cuts_to_adj_and_minfree:
  "lowmem_min_adj P v =
     Inr (case spec_evaluate_pressure (lowmem_check_filepages P \<noteq> 0) (other_free_of v)
                 (other_file_of P v) (lru_file_of v) (take (tier_count P) (table_of P)) of
            None \<Rightarrow> OOM_ADJUST_MAX P + 1 | Some c \<Rightarrow> c) \<and>
   tier_count P = nat (min 6 (min (sint (lowmem_adj_size P)) (sint (lowmem_minfree_size P)))) \<and>
   (lowmem_adj_size P = 6 \<and> lowmem_minfree_size P = 4 \<longrightarrow> tier_count P = 4)"
  by (simp add: lowmem_min_adj_refines tier_count_eq)

text \<open>
  With four min_free entries a snapshot that breaches the fifth tier only breaches
  nothing; with all six it yields the fifth cutoff.
\<close>

lemma walk_cuts_to_adj_and_minfree_example:
  "lowmem_adj_size short_minfree_params = 6 \<and> lowmem_minfree_size short_minfree_params = 4 \<and>
   tier_count short_minfree_params = 4 \<and>
   lowmem_min_adj short_minfree_params short_minfree_pages = Inr (OOM_ADJUST_MAX short_minfree_params + 1) \<and>
   lowmem_min_adj default_params short_minfree_pages = Inr 6"
proof -
  have sz: "lowmem_adj_size short_minfree_params = 6 \<and> lowmem_minfree_size short_minfree_params = 4"
    by (simp add: short_minfree_params_def default_params_def)
  have n: "tier_count short_minfree_params = 4"
    using walk_cuts_to_adj_and_minfree [of short_minfree_params short_minfree_pages] sz
    by blast
  have "lowmem_min_adj short_minfree_params short_minfree_pages =
     Inr (case spec_evaluate_pressure (lowmem_check_filepages short_minfree_params \<noteq> 0)
                 (other_free_of short_minfree_pages)
                 (other_file_of short_minfree_params short_minfree_pages)
                 (lru_file_of short_minfree_pages) (take 4 (table_of short_minfree_params)) of
            None \<Rightarrow> OOM_ADJUST_MAX short_minfree_params + 1 | Some c \<Rightarrow> c)"
    using walk_cuts_to_adj_and_minfree [of short_minfree_params short_minfree_pages]
    unfolding n by blast
  also have "\<dots> = Inr (OOM_ADJUST_MAX short_minfree_params + 1)"
    by (simp add: snapshot_defs short_minfree_params_def short_minfree_pages_def
        default_params_def table_of_def spec_tier_breached_def)
  finally have r: "lowmem_min_adj short_minfree_params short_minfree_pages = Inr (OOM_ADJUST_MAX short_minfree_params + 1)" .
  have d: "lowmem_min_adj default_params short_minfree_pages = Inr 6"
    by (simp add: walk_defs snapshot_defs short_minfree_pages_def default_params_def)
  show ?thesis using sz n r d by blast
qed

section \<open>A negative file count\<close>

text \<open>
  Claim C6 says a negative derived counter is clamped to zero before it is compared. The
  function has no clamp: with shmem 100 above the file count the raw value is -100, the
  credit of 1600 makes it 1500 where the clamped value would be 1600, and the walk
  returns the first tier's cutoff where the clamped snapshot gives the second's.
\<close>

theorem no_clamp_counterexample:
  "sint (other_file_raw negative_file_pages) = - 100 \<and>
   other_file_of negative_file_params negative_file_pages = 1500 \<and>
   spec_other_file_clamped negative_file_params negative_file_pages = 1600 \<and>
   lowmem_min_adj negative_file_params negative_file_pages = Inr 0 \<and>
   spec_min_adj_clamped negative_file_params negative_file_pages = Inr 1"
  by (simp add: walk_defs snapshot_defs negative_file_params_def negative_file_pages_def
      default_params_def spec_min_adj_clamped_def spec_other_file_clamped_def clamp_to_zero_def
      word_sle_eq word_sless_alt)

text \<open>
  Claim C6 as amended. The walk never fails, whatever the counters are. The derived file
  count is not clamped: the credit is added to the negative value and the sum is compared
  as a signed int. When the free-page count is not negative, the result is the one the
  walk gives with the final file count (credit included) raised to zero: below a
  threshold that exceeds a non-negative free count, a negative value and zero compare
  alike.
\<close>

theorem negative_file_count_is_compared_signed:
  assumes "0 \<le>s other_free_of v"
  shows "(\<exists>m. lowmem_min_adj P v = Inr m) \<and>
         lowmem_min_adj P v =
           tier_loop P (other_free_of v) (clamp_to_zero (other_file_of P v)) (lru_file_of v)
             (array_size_of P) 0 (OOM_ADJUST_MAX P + 1)"
proof -
  have n: "nat (sint (array_size_of P)) \<le> 6" using tier_count_le [of P] by (simp add: tier_count_def)
  show ?thesis
    unfolding lowmem_min_adj_def tier_loop_refines [OF n]
    by (simp add: spec_evaluate_pressure_clamp [OF assms])
qed

text \<open>The snapshot above has 1000 free pages.\<close>

theorem negative_file_count_is_compared_signed_witness:
  "0 \<le>s other_free_of negative_file_pages \<and>
   lowmem_min_adj negative_file_params negative_file_pages =
     tier_loop negative_file_params (other_free_of negative_file_pages)
       (clamp_to_zero (other_file_of negative_file_params negative_file_pages))
       (lru_file_of negative_file_pages) (array_size_of negative_file_params) 0
       (OOM_ADJUST_MAX negative_file_params + 1)"
proof -
  have h: "0 \<le>s other_free_of negative_file_pages"
    by (simp add: other_free_of_def negative_file_pages_def word_sle_eq)
  from negative_file_count_is_compared_signed [OF h, of negative_file_params] h
  show ?thesis by blast
qed

section \<open>The swap credit\<close>




section \<open>No pressure, no action\<close>

text \<open>
  Claim C8. When the free-page count is at least the min_free of every tier the walk
  visits, \<open>min_adj\<close> keeps the value that stands for none, the call returns at line 167
  whatever \<open>nr_to_scan\<close> is, and the state it leaves is the state it found: deadline,
  flags, signals and all. Any number of calls in a row do the same.
\<close>

theorem no_pressure_is_noop:
  assumes "\<forall>i<tier_count (params K).
             list6 (lowmem_minfree (params K)) ! i \<le>s other_free_of (vm_stat K)"
  shows "lowmem_min_adj (params K) (vm_stat K) = Inr (OOM_ADJUST_MAX (params K) + 1) \<and>
         lowmem_shrink n K = Inr (NoActionNeeded, K) \<and>
         lowmem_shrink_seq ns K = Inr (replicate (length ns) NoActionNeeded, K)"
proof -
  have m: "lowmem_min_adj (params K) (vm_stat K) = Inr (OOM_ADJUST_MAX (params K) + 1)"
    using assms by (rule no_pressure_min_adj)
  then show ?thesis by (simp add: lowmem_shrink_def no_pressure_seq)
qed

text \<open>7000 free pages are above every default threshold.\<close>

theorem no_pressure_is_noop_witness:
  "lowmem_min_adj (params roomy_kernel) (vm_stat roomy_kernel) = Inr (OOM_ADJUST_MAX (params roomy_kernel) + 1) \<and>
   lowmem_shrink 1 roomy_kernel = Inr (NoActionNeeded, roomy_kernel) \<and>
   lowmem_shrink_seq [1, 0, 128] roomy_kernel =
     Inr ([NoActionNeeded, NoActionNeeded, NoActionNeeded], roomy_kernel)"
proof -
  have h: "\<forall>i<tier_count (params roomy_kernel).
      list6 (lowmem_minfree (params roomy_kernel)) ! i \<le>s other_free_of (vm_stat roomy_kernel)"
    by (simp add: roomy_kernel_def tier_count_default)
      (simp add: default_params_def roomy_pages_def other_free_of_def eval_nat_numeral
        All_less_Suc)
  from no_pressure_is_noop [OF h, of 1 "[1, 0, 128]"] show ?thesis
    by (simp del: lowmem_shrink_seq.simps)
qed

section \<open>No eligible victim\<close>

text \<open>
  Claim C9. When the walk yields a cutoff (a value other than \<open>OOM_ADJUST_MAX + 1\<close>),
  the caller asks for a scan (\<open>nr_to_scan > 0\<close>), and no entry of the process list
  survives the filter or stops the scan at line 196, the call returns \<open>rem = -1\<close>, not
  the 0 of lines 167 and 200, sends no signal and leaves the state as it was. The empty
  process list is one such list.
\<close>

theorem no_survivor_gives_no_eligible_victim:
  assumes "lowmem_min_adj (params K) (vm_stat K) = Inr m" and "m \<noteq> OOM_ADJUST_MAX (params K) + 1"
    and "0 <s n"
    and "\<forall>p\<in>set (tasks K). \<not> eligible m p \<and>
           \<not> death_pending (params K) (jiffies K) p"
  shows "lowmem_shrink n K = Inr (NoEligibleVictim, K) \<and> retval NoEligibleVictim = - 1"
proof -
  have n: "\<not> n \<le>s 0" using assms(3) by (simp add: word_sle_eq word_sless_alt)
  have "process_loop (params K) (jiffies K) m (tasks K) 0
          \<lparr>selected = None, selected_tasksize = 0, selected_oom_adj = m\<rparr> =
        Some \<lparr>selected = None, selected_tasksize = 0, selected_oom_adj = m\<rparr>"
    using assms(4) by (intro process_loop_nobody) blast
  then show ?thesis using assms(1,2) n by (simp add: lowmem_shrink_def)
qed

text \<open>
  In \<open>spared_tasks\<close> a kernel thread, a task without mm, a task below the cutoff and a
  task with no resident page are all passed over.
\<close>

theorem no_survivor_gives_no_eligible_victim_witness:
  "lowmem_min_adj (params spared_kernel) (vm_stat spared_kernel) = Inr 0 \<and>
   (0 :: c_int) \<noteq> OOM_ADJUST_MAX (params spared_kernel) + 1 \<and> (0 :: c_int) <s 1 \<and>
   lowmem_shrink 1 spared_kernel = Inr (NoEligibleVictim, spared_kernel)"
proof -
  have h1: "lowmem_min_adj (params spared_kernel) (vm_stat spared_kernel) = Inr 0"
    by (simp add: spared_kernel_def tight_min_adj)
  have h2: "(0 :: c_int) \<noteq> OOM_ADJUST_MAX (params spared_kernel) + 1"
    by (simp add: spared_kernel_def default_timeout)
  have h3: "(0 :: c_int) <s 1" by (simp add: signed_cmp)
  have h4: "\<forall>p\<in>set (tasks spared_kernel). \<not> eligible 0 p \<and>
      \<not> death_pending (params spared_kernel) (jiffies spared_kernel) p"
    by (simp add: spared_kernel_def spared_tasks_def user_task_def eligible_def death_pending_def
        signed_cmp)
  from no_survivor_gives_no_eligible_victim [OF h1 h2 h3 h4] h1 h2 h3 show ?thesis by blast
qed

section \<open>The early-suspend round trip\<close>

text \<open>
  Claim C10. Whatever the active min_free table is, the screen-off swap followed by the
  screen-on restore leaves it as it was: the suspend hook saves the active table before
  it installs the screen-off one, and the resume hook puts the saved table back.
\<close>

theorem suspend_resume_restores_minfree:
  "lowmem_minfree (low_mem_late_resume (low_mem_early_suspend P)) = lowmem_minfree P"
  by (simp add: low_mem_late_resume_def low_mem_early_suspend_def)

text \<open>
  With a screen-off table that differs, the swap installs it and the restore brings the
  default table back.
\<close>

theorem suspend_resume_restores_minfree_witness:
  "lowmem_minfree (low_mem_early_suspend dimmed_params) = Arr6 512 1024 1536 2048 2560 3072 \<and>
   lowmem_minfree (low_mem_late_resume (low_mem_early_suspend dimmed_params)) =
     Arr6 1536 2048 3072 4096 5120 6144"
  using suspend_resume_restores_minfree [of dimmed_params]
  by (simp add: dimmed_params_def default_params_def low_mem_early_suspend_def)

end
